theory Spec2Isabelle
  imports Main "HOL-Library.Word"
begin

section \<open>Metadata store (package db)\<close>

subsection \<open>Data model\<close>

text \<open>
  Go's \<open>int64\<close> and (on the 64-bit targets of the service) \<open>int\<close> are 64-bit
  two's complement words, read with \<open>sint\<close>. A \<open>time.Time\<close> is modelled by the
  instant it denotes, in nanoseconds on an unbounded time line, so that
  \<open>t.Before(u)\<close> is \<open>t < u\<close>.
\<close>

type_synonym int64 = "64 word"
type_synonym time = int

record FileMetadata =
  ID :: int64
  FileName :: string
  OriginalName :: string
  FilePath :: string
  FileSize :: int64
  UploadedAt :: time
  ExpiresAt :: time
  TTL :: int64
  RemoteIP :: string

record DatabaseData =
  Files :: "int64 \<rightharpoonup> FileMetadata"
  NextID :: int64
  Config :: "string \<rightharpoonup> string"

text \<open>
  The \<open>Database\<close> handle. The mutex is not modelled: every operation below is one
  critical section. \<open>autoSave\<close> is the channel of capacity 1; it either holds a
  pending save signal or is empty.
\<close>

record Database =
  filePath :: string
  data :: DatabaseData
  autoSave :: bool

datatype db_error = MkdirError | MarshalError | WriteError | RenameError

subsection \<open>Iterating over a Go map\<close>

text \<open>
  The order in which \<open>for k, v := range m\<close> visits a map is chosen by the runtime and
  may differ from one loop to the next. Every function with such a loop takes the order
  \<open>ks\<close> of that loop as an argument; \<open>range_map ks m\<close> is the sequence of entries
  visited. An order is admissible for \<open>m\<close> when it names every key of \<open>m\<close> once.
\<close>

definition range_map :: "'k list \<Rightarrow> ('k \<rightharpoonup> 'v) \<Rightarrow> ('k \<times> 'v) list" where
  "range_map ks m = map (\<lambda>k. (k, the (m k))) (filter (\<lambda>k. m k \<noteq> None) ks)"

definition range_order :: "'k list \<Rightarrow> ('k \<rightharpoonup> 'v) \<Rightarrow> bool" where
  "range_order ks m \<longleftrightarrow> distinct ks \<and> dom m \<subseteq> set ks"

subsection \<open>Operations\<close>

definition triggerSave :: "Database \<Rightarrow> Database" where
  "triggerSave d = (if autoSave d then d else d\<lparr>autoSave := True\<rparr>)"

definition GetConfig :: "Database \<Rightarrow> string \<Rightarrow> string" where
  "GetConfig d key = (case Config (data d) key of Some val \<Rightarrow> val | None \<Rightarrow> [])"

definition SetConfig :: "Database \<Rightarrow> string \<Rightarrow> string \<Rightarrow> db_error option \<times> Database" where
  "SetConfig d key val =
     (None, triggerSave (d\<lparr>data := (data d)\<lparr>Config := (Config (data d))(key \<mapsto> val)\<rparr>\<rparr>))"

text \<open>
  \<open>SaveFileMetadata\<close> writes the id into the caller's record, increments
  \<open>NextID\<close> (wrapping, as \<open>int64\<close> does) and stores the record under the id.
  It returns the error (always nil), the record as stored, and the new state.
\<close>

definition SaveFileMetadata ::
  "Database \<Rightarrow> FileMetadata \<Rightarrow> db_error option \<times> FileMetadata \<times> Database" where
  "SaveFileMetadata d meta =
     (let meta' = meta\<lparr>ID := NextID (data d)\<rparr>;
          d1 = d\<lparr>data := (data d)\<lparr>NextID := NextID (data d) + 1\<rparr>\<rparr>;
          d2 = d1\<lparr>data := (data d1)\<lparr>Files := (Files (data d1))(ID meta' \<mapsto> meta')\<rparr>\<rparr>
      in (None, meta', triggerSave d2))"

definition GetFileMetadata ::
  "int64 list \<Rightarrow> Database \<Rightarrow> string \<Rightarrow> FileMetadata option \<times> db_error option" where
  "GetFileMetadata ks d path =
     (case find (\<lambda>(k, meta). FilePath meta = path) (range_map ks (Files (data d))) of
        Some (k, meta) \<Rightarrow> (Some meta, None)
      | None \<Rightarrow> (None, None))"

definition GetFileMetadataByID ::
  "Database \<Rightarrow> int64 \<Rightarrow> FileMetadata option \<times> db_error option" where
  "GetFileMetadataByID d i =
     (case Files (data d) i of None \<Rightarrow> (None, None) | Some meta \<Rightarrow> (Some meta, None))"

definition DeleteFileMetadata ::
  "int64 list \<Rightarrow> Database \<Rightarrow> string \<Rightarrow> db_error option \<times> Database" where
  "DeleteFileMetadata ks d path =
     (case find (\<lambda>(k, meta). FilePath meta = path) (range_map ks (Files (data d))) of
        Some (k, meta) \<Rightarrow>
          (None, triggerSave (d\<lparr>data := (data d)\<lparr>Files := (Files (data d))(k := None)\<rparr>\<rparr>))
      | None \<Rightarrow> (None, d))"

text \<open>\<open>GetExpiredFiles\<close> reads the clock once; \<open>now\<close> is that reading.\<close>

definition GetExpiredFiles ::
  "int64 list \<Rightarrow> Database \<Rightarrow> time \<Rightarrow> FileMetadata list \<times> db_error option" where
  "GetExpiredFiles ks d now =
     (map snd (filter (\<lambda>(k, meta). ExpiresAt meta < now) (range_map ks (Files (data d)))),
      None)"


subsection \<open>Paths (package path/filepath, Unix separator)\<close>

text \<open>
  \<open>strings.Split(s, "/")\<close>: the pieces between the separators; the empty string
  splits into one empty piece.
\<close>

fun split_slash :: "string \<Rightarrow> string list" where
  "split_slash [] = [[]]"
| "split_slash (c # cs) =
     (if c = CHR ''/'' then [] # split_slash cs
      else (case split_slash cs of w # ws \<Rightarrow> (c # w) # ws | [] \<Rightarrow> [[c]]))"

text \<open>
  \<open>filepath.Clean\<close> by path elements: empty and \<open>.\<close> elements are dropped, an
  inner \<open>..\<close> removes the element before it, \<open>..\<close> at the start of a rooted path is
  dropped, and the empty result is \<open>.\<close>. The elements kept so far are held in
  reverse.
\<close>

fun clean_elems :: "bool \<Rightarrow> string list \<Rightarrow> string list \<Rightarrow> string list" where
  "clean_elems rooted acc [] = rev acc"
| "clean_elems rooted acc (e # es) =
     (if e = [] \<or> e = ''.'' then clean_elems rooted acc es
      else if e = ''..'' then
        (case acc of
           a # acc' \<Rightarrow>
             (if a = ''..'' then clean_elems rooted (e # acc) es
              else clean_elems rooted acc' es)
         | [] \<Rightarrow>
             (if rooted then clean_elems rooted acc es
              else clean_elems rooted (e # acc) es))
      else clean_elems rooted (e # acc) es)"

fun join_slash :: "string list \<Rightarrow> string" where
  "join_slash [] = []"
| "join_slash [e] = e"
| "join_slash (e # es) = e @ ''/'' @ join_slash es"

definition filepath_Clean :: "string \<Rightarrow> string" where
  "filepath_Clean path =
     (if path = [] then ''.''
      else let rooted = (hd path = CHR ''/'');
               out = (if rooted then ''/'' else []) @
                     join_slash (clean_elems rooted [] (split_slash path))
           in if out = [] then ''.'' else out)"

text \<open>
  \<open>filepath.Join\<close> of two elements: empty elements are ignored and the result is
  cleaned.
\<close>

definition filepath_Join :: "string \<Rightarrow> string \<Rightarrow> string" where
  "filepath_Join a b =
     (if a \<noteq> [] then filepath_Clean (a @ ''/'' @ b)
      else if b \<noteq> [] then filepath_Clean b
      else [])"

text \<open>\<open>filepath.Dir\<close>: the path up to its last separator, cleaned.\<close>

fun upto_last_slash :: "string \<Rightarrow> string" where
  "upto_last_slash [] = []"
| "upto_last_slash (c # cs) =
     (if CHR ''/'' \<in> set (c # cs) then c # upto_last_slash cs else [])"

definition filepath_Dir :: "string \<Rightarrow> string" where
  "filepath_Dir path = filepath_Clean (upto_last_slash path)"



subsection \<open>The file system seen by the store\<close>

text \<open>
  The store uses five calls of package \<open>os\<close>. The file system is a map from
  paths to file contents together with the places where a call fails: directories that
  cannot be created, files that cannot be read, and paths that cannot be written.
\<close>

datatype os_error = ErrNotExist | ErrOther

record filesystem =
  fs_files :: "string \<rightharpoonup> string"
  fs_no_mkdir :: "string set"
  fs_no_read :: "string set"
  fs_no_write :: "string set"

definition os_MkdirAll :: "filesystem \<Rightarrow> string \<Rightarrow> os_error option \<times> filesystem" where
  "os_MkdirAll fs dir = (if dir \<in> fs_no_mkdir fs then (Some ErrOther, fs) else (None, fs))"

definition os_Stat :: "filesystem \<Rightarrow> string \<Rightarrow> os_error option" where
  "os_Stat fs path = (case fs_files fs path of None \<Rightarrow> Some ErrNotExist | Some _ \<Rightarrow> None)"

definition os_ReadFile :: "filesystem \<Rightarrow> string \<Rightarrow> os_error + string" where
  "os_ReadFile fs path =
     (case fs_files fs path of
        None \<Rightarrow> Inl ErrNotExist
      | Some bytes \<Rightarrow> (if path \<in> fs_no_read fs then Inl ErrOther else Inr bytes))"

definition os_WriteFile ::
  "filesystem \<Rightarrow> string \<Rightarrow> string \<Rightarrow> os_error option \<times> filesystem" where
  "os_WriteFile fs path bytes =
     (if path \<in> fs_no_write fs then (Some ErrOther, fs)
      else (None, fs\<lparr>fs_files := (fs_files fs)(path \<mapsto> bytes)\<rparr>))"

definition os_Rename ::
  "filesystem \<Rightarrow> string \<Rightarrow> string \<Rightarrow> os_error option \<times> filesystem" where
  "os_Rename fs oldpath newpath =
     (case fs_files fs oldpath of
        None \<Rightarrow> (Some ErrNotExist, fs)
      | Some bytes \<Rightarrow>
          (if newpath \<in> fs_no_write fs then (Some ErrOther, fs)
           else (None, fs\<lparr>fs_files := ((fs_files fs)(oldpath := None))(newpath \<mapsto> bytes)\<rparr>)))"

subsection \<open>The JSON codec\<close>

text \<open>
  \<open>encoding/json\<close> is a parameter of the model. \<open>json_Unmarshal\<close> decodes into an
  existing value: it returns the error and the value as the decoder left it, which the
  caller keeps whether or not there was an error.
\<close>

datatype json_error = JsonError

record codec =
  json_MarshalIndent :: "DatabaseData \<Rightarrow> json_error + string"
  json_Unmarshal :: "string \<Rightarrow> DatabaseData \<Rightarrow> json_error option \<times> DatabaseData"

subsection \<open>Opening, saving and closing\<close>

definition default_config :: "string \<rightharpoonup> string" where
  "default_config =
     [''server.host'' \<mapsto> ''0.0.0.0'',
      ''server.port'' \<mapsto> ''8080'',
      ''storage.images_dir'' \<mapsto> ''./Images'',
      ''storage.max_file_size'' \<mapsto> ''104857600'',
      ''storage.cleanup_interval'' \<mapsto> ''60'',
      ''storage.default_ttl'' \<mapsto> ''1'',
      ''storage.max_ttl'' \<mapsto> ''8760'',
      ''auth.api_key'' \<mapsto> ''change-me-api-key'',
      ''auth.admin_username'' \<mapsto> ''276793422'',
      ''auth.admin_password'' \<mapsto> ''490003219'',
      ''auth.list_password'' \<mapsto> ''490003219'',
      ''security.ip_whitelist'' \<mapsto> [],
      ''security.rate_limit_per_minute'' \<mapsto> ''60'',
      ''security.session_timeout'' \<mapsto> ''300'']"

definition initDefaultConfig :: "Database \<Rightarrow> Database" where
  "initDefaultConfig d = triggerSave (d\<lparr>data := (data d)\<lparr>Config := default_config\<rparr>\<rparr>)"

definition fresh_data :: DatabaseData where
  "fresh_data = \<lparr>Files = Map.empty, NextID = 1, Config = Map.empty\<rparr>"

text \<open>
  \<open>Open\<close> returns an error only from \<open>os.MkdirAll\<close>. The results of
  \<open>os.Stat\<close>, \<open>os.ReadFile\<close> and \<open>json.Unmarshal\<close> select whether the file is
  loaded; none of their errors is returned. The goroutine started at the end is
  \<open>autoSaveLoop\<close>, modelled below one iteration at a time.
\<close>

definition Open :: "codec \<Rightarrow> filesystem \<Rightarrow> string \<Rightarrow> (db_error + Database) \<times> filesystem" where
  "Open c fs dbPath =
     (let dir = filepath_Dir dbPath in
      case os_MkdirAll fs dir of
        (Some e, fs1) \<Rightarrow> (Inl MkdirError, fs1)
      | (None, fs1) \<Rightarrow>
          (let database = \<lparr>filePath = dbPath, data = fresh_data, autoSave = False\<rparr>;
               database1 =
                 (case os_Stat fs1 dbPath of
                    Some e \<Rightarrow> database
                  | None \<Rightarrow>
                      (case os_ReadFile fs1 dbPath of
                         Inl e \<Rightarrow> database
                       | Inr bytes \<Rightarrow>
                           database\<lparr>data := snd (json_Unmarshal c bytes (data database))\<rparr>));
               database2 =
                 (if Config (data database1) = Map.empty then initDefaultConfig database1
                  else database1)
           in (Inr database2, fs1)))"

definition save :: "codec \<Rightarrow> Database \<Rightarrow> filesystem \<Rightarrow> db_error option \<times> filesystem" where
  "save c d fs =
     (case json_MarshalIndent c (data d) of
        Inl e \<Rightarrow> (Some MarshalError, fs)
      | Inr bytes \<Rightarrow>
          (let tempPath = filePath d @ ''.tmp'' in
           case os_WriteFile fs tempPath bytes of
             (Some e, fs1) \<Rightarrow> (Some WriteError, fs1)
           | (None, fs1) \<Rightarrow>
               (case os_Rename fs1 tempPath (filePath d) of
                  (Some e, fs2) \<Rightarrow> (Some RenameError, fs2)
                | (None, fs2) \<Rightarrow> (None, fs2))))"

definition Close :: "codec \<Rightarrow> Database \<Rightarrow> filesystem \<Rightarrow> db_error option \<times> filesystem" where
  "Close c d fs = save c d fs"

text \<open>
  One iteration of \<open>autoSaveLoop\<close> taking the case \<open><-d.autoSave\<close>: it is enabled
  when the channel holds a signal, empties the channel and saves, discarding the result
  of \<open>save\<close>.
\<close>

definition autoSaveLoop_signal ::
  "codec \<Rightarrow> Database \<Rightarrow> filesystem \<Rightarrow> Database \<times> filesystem" where
  "autoSaveLoop_signal c d fs =
     (if autoSave d then (d\<lparr>autoSave := False\<rparr>, snd (save c d fs)) else (d, fs))"

subsection \<open>Expiry time of an upload, and batches of inserts\<close>

text \<open>
  \<open>handleUpload\<close> computes \<open>expiresAt := uploadedAt.Add(time.Duration(ttl) * time.Hour)\<close>.
  A \<open>time.Duration\<close> is an \<open>int64\<close> count of nanoseconds, so the product wraps.
\<close>

definition time_Minute :: int64 where
  "time_Minute = 60000000000"

definition time_Hour :: int64 where
  "time_Hour = 3600000000000"

definition time_Add :: "time \<Rightarrow> int64 \<Rightarrow> time" where
  "time_Add t dur = t + sint dur"

definition handleUpload_expiresAt :: "time \<Rightarrow> int64 \<Rightarrow> time" where
  "handleUpload_expiresAt uploadedAt ttl = time_Add uploadedAt (ttl * time_Hour)"

text \<open>
  A sequence of \<open>SaveFileMetadata\<close> calls on one store, each under the lock, in the
  order in which they acquire it. The result lists the records as stored, ids assigned.
\<close>

fun insert_batch :: "Database \<Rightarrow> FileMetadata list \<Rightarrow> FileMetadata list \<times> Database" where
  "insert_batch d [] = ([], d)"
| "insert_batch d (meta # metas) =
     (case SaveFileMetadata d meta of
        (err, meta', d') \<Rightarrow>
          (case insert_batch d' metas of
             (stored, d'') \<Rightarrow> (meta' # stored, d'')))"

section \<open>Naming engine (package naming)\<close>

subsection \<open>Formatting\<close>


definition hex_digit :: "nat \<Rightarrow> char" where
  "hex_digit n = ''0123456789abcdef'' ! (n mod 16)"


fun hex_digits :: "nat \<Rightarrow> string" where
  "hex_digits n = (if n < 16 then [hex_digit n] else hex_digits (n div 16) @ [hex_digit n])"






subsection \<open>The clock\<close>




subsection \<open>Generating names\<close>









definition is_lower_hex :: "char \<Rightarrow> bool" where
  "is_lower_hex c \<longleftrightarrow> c \<in> set ''0123456789abcdef''"


section \<open>Expiry sweeper (package cleanup)\<close>

subsection \<open>Helpers of package naming used by the sweeper\<close>

definition ParseDateFromPath :: "string \<Rightarrow> string" where
  "ParseDateFromPath path =
     (case split_slash path of part # parts \<Rightarrow> part | [] \<Rightarrow> [])"

definition GetStoragePath :: "string \<Rightarrow> string \<Rightarrow> string" where
  "GetStoragePath imagesDir relativePath = filepath_Join imagesDir relativePath"

subsection \<open>The sweep\<close>

text \<open>
  The sweeper removes files and directories through \<open>os.Remove\<close> and lists
  directories through \<open>os.ReadDir\<close>. Both are parameters acting on a state of the
  outside world of any type, so that what is proved about a sweep holds whatever these
  calls return.
\<close>

record 'w opsys =
  Remove :: "string \<Rightarrow> 'w \<Rightarrow> os_error option \<times> 'w"
  ReadDir :: "string \<Rightarrow> 'w \<Rightarrow> os_error + string list"

record cleanup_Config =
  ImagesDir :: string
  CleanupInterval :: int64

text \<open>The lines that \<open>runCleanup\<close> writes to the log, by their arguments.\<close>

datatype log_entry =
    LogStarting
  | LogErrorGetting
  | LogNoExpired
  | LogErrorDeleting string
  | LogErrorMetadata string
  | LogDeleted string string int64
  | LogNoteDir string
  | LogComplete int64 int64

definition removeEmptyDir :: "'w opsys \<Rightarrow> string \<Rightarrow> 'w \<Rightarrow> os_error option \<times> 'w" where
  "removeEmptyDir ops dirPath w =
     (case ReadDir ops dirPath w of
        Inl e \<Rightarrow> (Some e, w)
      | Inr entries \<Rightarrow> (if length entries = 0 then Remove ops dirPath w else (None, w)))"

text \<open>
  The state of a sweep: the store, the outside world, the two counters and the log.
\<close>

record 'w sweep =
  sw_db :: Database
  sw_world :: 'w
  sw_deletedCount :: int64
  sw_freedSpace :: int64
  sw_log :: "log_entry list"

text \<open>
  The body of the loop of \<open>runCleanup\<close> for one expired record; \<open>ks\<close> is the
  iteration order inside its call of \<open>DeleteFileMetadata\<close>.
\<close>

definition cleanup_file ::
  "'w opsys \<Rightarrow> cleanup_Config \<Rightarrow> int64 list \<Rightarrow> FileMetadata \<Rightarrow> 'w sweep \<Rightarrow> 'w sweep" where
  "cleanup_file ops cfg ks file st =
     (let fullPath = GetStoragePath (ImagesDir cfg) (FilePath file);
          (rm, w1) = Remove ops fullPath (sw_world st);
          st1 = (case rm of
                   Some e \<Rightarrow>
                     (if e \<noteq> ErrNotExist
                      then st\<lparr>sw_world := w1, sw_log := sw_log st @ [LogErrorDeleting (FilePath file)]\<rparr>
                      else st\<lparr>sw_world := w1\<rparr>)
                 | None \<Rightarrow>
                     st\<lparr>sw_world := w1,
                        sw_deletedCount := sw_deletedCount st + 1,
                        sw_freedSpace := sw_freedSpace st + FileSize file\<rparr>);
          (derr, d1) = DeleteFileMetadata ks (sw_db st1) (FilePath file);
          st2 = (case derr of
                   Some e \<Rightarrow> st1\<lparr>sw_db := d1, sw_log := sw_log st1 @ [LogErrorMetadata (FilePath file)]\<rparr>
                 | None \<Rightarrow>
                     st1\<lparr>sw_db := d1,
                         sw_log := sw_log st1 @
                           [LogDeleted (FilePath file) (OriginalName file) (FileSize file)]\<rparr>);
          dateDir = ParseDateFromPath (FilePath file)
      in if dateDir \<noteq> [] then
           (let fullDirPath = filepath_Join (ImagesDir cfg) dateDir in
            case removeEmptyDir ops fullDirPath (sw_world st2) of
              (Some e, w2) \<Rightarrow> st2\<lparr>sw_world := w2, sw_log := sw_log st2 @ [LogNoteDir dateDir]\<rparr>
            | (None, w2) \<Rightarrow> st2\<lparr>sw_world := w2\<rparr>)
         else st2)"

text \<open>
  The loop over the expired records. \<open>orders i\<close> is the map iteration order inside
  the \<open>DeleteFileMetadata\<close> call of iteration \<open>i\<close>.
\<close>

fun cleanup_loop ::
  "'w opsys \<Rightarrow> cleanup_Config \<Rightarrow> (nat \<Rightarrow> int64 list) \<Rightarrow> nat \<Rightarrow> FileMetadata list \<Rightarrow>
   'w sweep \<Rightarrow> 'w sweep" where
  "cleanup_loop ops cfg orders i [] st = st"
| "cleanup_loop ops cfg orders i (file # files) st =
     cleanup_loop ops cfg orders (Suc i) files (cleanup_file ops cfg (orders i) file st)"

text \<open>
  \<open>runCleanup\<close>: \<open>ks0\<close> is the iteration order inside \<open>GetExpiredFiles\<close> and
  \<open>now\<close> its clock reading. The byte count of the last log line is kept as a number.
\<close>

definition runCleanup ::
  "'w opsys \<Rightarrow> cleanup_Config \<Rightarrow> int64 list \<Rightarrow> (nat \<Rightarrow> int64 list) \<Rightarrow> time \<Rightarrow>
   Database \<Rightarrow> 'w \<Rightarrow> 'w sweep" where
  "runCleanup ops cfg ks0 orders now d w =
     (let st = \<lparr>sw_db = d, sw_world = w, sw_deletedCount = 0, sw_freedSpace = 0,
                 sw_log = [LogStarting]\<rparr>
      in case GetExpiredFiles ks0 d now of
           (expiredFiles, Some err) \<Rightarrow> st\<lparr>sw_log := sw_log st @ [LogErrorGetting]\<rparr>
         | (expiredFiles, None) \<Rightarrow>
             (if length expiredFiles = 0 then st\<lparr>sw_log := sw_log st @ [LogNoExpired]\<rparr>
              else (let st' = cleanup_loop ops cfg orders 0 expiredFiles st
                    in st'\<lparr>sw_log := sw_log st' @
                         [LogComplete (sw_deletedCount st') (sw_freedSpace st')]\<rparr>)))"

definition RunOnce ::
  "'w opsys \<Rightarrow> cleanup_Config \<Rightarrow> int64 list \<Rightarrow> (nat \<Rightarrow> int64 list) \<Rightarrow> time \<Rightarrow>
   Database \<Rightarrow> 'w \<Rightarrow> 'w sweep" where
  "RunOnce ops cfg ks0 orders now d w = runCleanup ops cfg ks0 orders now d w"

subsection \<open>Goroutines that run sweeps\<close>








text \<open>
  The data model's invariant on paths: no two records of the file map share a
  \<open>FilePath\<close>. \<open>drop_paths P m\<close> is \<open>m\<close> without the records whose path is in
  \<open>P\<close>.
\<close>

definition unique_paths :: "(int64 \<rightharpoonup> FileMetadata) \<Rightarrow> bool" where
  "unique_paths m \<longleftrightarrow>
     (\<forall>k k' a b. m k = Some a \<and> m k' = Some b \<and> FilePath a = FilePath b \<longrightarrow> k = k')"

definition drop_paths :: "string set \<Rightarrow> (int64 \<rightharpoonup> FileMetadata) \<Rightarrow> (int64 \<rightharpoonup> FileMetadata)" where
  "drop_paths P m =
     (\<lambda>k. case m k of None \<Rightarrow> None | Some a \<Rightarrow> if FilePath a \<in> P then None else Some a)"

text \<open>\<open>drop_expired now m\<close> is \<open>m\<close> without the records that expire before \<open>now\<close>.\<close>

definition drop_expired :: "time \<Rightarrow> (int64 \<rightharpoonup> FileMetadata) \<Rightarrow> (int64 \<rightharpoonup> FileMetadata)" where
  "drop_expired now m =
     (\<lambda>k. case m k of None \<Rightarrow> None | Some a \<Rightarrow> if ExpiresAt a < now then None else Some a)"

fun is_LogDeleted :: "log_entry \<Rightarrow> bool" where
  "is_LogDeleted (LogDeleted p n s) = True"
| "is_LogDeleted e = False"

section \<open>Example values\<close>

definition example_meta :: "string \<Rightarrow> time \<Rightarrow> FileMetadata" where
  "example_meta path expires =
     \<lparr>ID = 0, FileName = path, OriginalName = ''photo.jpg'', FilePath = path,
      FileSize = 10, UploadedAt = expires - 3600000000000, ExpiresAt = expires,
      TTL = 1, RemoteIP = ''127.0.0.1''\<rparr>"

definition example_db :: Database where
  "example_db =
     \<lparr>filePath = ''data/db.json'',
      data = \<lparr>Files = [1 \<mapsto> example_meta ''20240101/a.jpg'' 100,
                       2 \<mapsto> example_meta ''20240101/b.jpg'' 200],
              NextID = 3,
              Config = [''server.port'' \<mapsto> ''8080'']\<rparr>,
      autoSave = False\<rparr>"

text \<open>
  A codec and two file systems for the examples: the codec writes one fixed document,
  decodes it to the data of \<open>example_db\<close> and rejects anything else, leaving the
  destination as it was. \<open>example_fs\<close> holds an unparseable snapshot.
\<close>

definition example_codec :: codec where
  "example_codec =
     \<lparr>json_MarshalIndent = (\<lambda>dd. Inr ''{snapshot}''),
      json_Unmarshal = (\<lambda>bytes dst.
         if bytes = ''{snapshot}'' then (None, data example_db) else (Some JsonError, dst))\<rparr>"

definition example_fs :: filesystem where
  "example_fs =
     \<lparr>fs_files = [''data/db.json'' \<mapsto> ''{corrupt''],
      fs_no_mkdir = {}, fs_no_read = {}, fs_no_write = {}\<rparr>"

definition unreadable_fs :: filesystem where
  "unreadable_fs =
     \<lparr>fs_files = [''data/db.json'' \<mapsto> ''{snapshot}''],
      fs_no_mkdir = {}, fs_no_read = {''data/db.json''}, fs_no_write = {}\<rparr>"

definition readonly_fs :: filesystem where
  "readonly_fs =
     \<lparr>fs_files = Map.empty,
      fs_no_mkdir = {''data''}, fs_no_read = {}, fs_no_write = {}\<rparr>"

text \<open>
  An outside world for the examples: the list of the paths of the files that exist.
  Removing \<open>Images/20240101/a.jpg\<close> is refused, removing another existing file
  succeeds, and removing a missing file reports that it does not exist.
\<close>

definition example_ops :: "string list opsys" where
  "example_ops =
     \<lparr>Remove = (\<lambda>p w.
         if p = ''Images/20240101/a.jpg'' then (Some ErrOther, w)
         else if p \<in> set w then (None, removeAll p w)
         else (Some ErrNotExist, w)),
      ReadDir = (\<lambda>dir w. Inr (filter (\<lambda>p. take (length dir + 1) p = dir @ ''/'') w))\<rparr>"

definition example_cfg :: cleanup_Config where
  "example_cfg = \<lparr>ImagesDir = ''Images'', CleanupInterval = 60\<rparr>"

section \<open>Properties of the store\<close>

lemma range_map_set:
  "set (range_map ks m) = {(k, v). k \<in> set ks \<and> m k = Some v}"
  by (auto simp: range_map_def)

lemma find_SomeD:
  "find Q xs = Some x \<Longrightarrow> x \<in> set xs \<and> Q x"
  by (induction xs) (auto split: if_splits)

lemma find_range_Some:
  assumes "find (\<lambda>(k, meta). P meta) (range_map ks m) = Some (k, v)"
  shows "m k = Some v \<and> P v \<and> k \<in> set ks"
proof -
  from find_SomeD [OF assms] have "(k, v) \<in> set (range_map ks m)" "P v"
    by auto
  then show ?thesis by (simp add: range_map_set)
qed

lemma find_range_None:
  assumes "find (\<lambda>(k, meta). P meta) (range_map ks m) = None"
    and "dom m \<subseteq> set ks" and "m k = Some v"
  shows "\<not> P v"
proof
  assume "P v"
  from assms(2,3) have "(k, v) \<in> set (range_map ks m)"
    by (auto simp: range_map_set)
  with assms(1) \<open>P v\<close> show False
    by (auto simp: find_None_iff)
qed

lemma example_db_order: "range_order [1, 2] (Files (data example_db))"
  by (auto simp: range_order_def example_db_def split: if_splits)

subsection \<open>Configuration lookup\<close>

text \<open>
  Claim C10. \<open>GetConfig\<close> returns a plain string. For a key that is not in the
  configuration map it returns the empty string, which is also what it returns once
  the empty string has been stored under that key, so the result does not tell the two
  situations apart.
\<close>

theorem GetConfig_absent_is_empty:
  assumes "Config (data d) key = None"
  shows "GetConfig d key = [] \<and>
         GetConfig (snd (SetConfig d key [])) key = GetConfig d key"
  using assms by (simp add: GetConfig_def SetConfig_def triggerSave_def)

theorem GetConfig_absent_is_empty_witness:
  "Config (data example_db) ''database.path'' = None \<and>
   GetConfig example_db ''database.path'' = [] \<and>
   GetConfig (snd (SetConfig example_db ''database.path'' [])) ''database.path'' =
     GetConfig example_db ''database.path''"
proof -
  have h: "Config (data example_db) ''database.path'' = None"
    by (simp add: example_db_def)
  from GetConfig_absent_is_empty [OF h] h show ?thesis by simp
qed

subsection \<open>Deleting by path\<close>

text \<open>
  Claim C9. \<open>DeleteFileMetadata\<close> never returns an error. When some record has the
  given path, one record with that path is removed from the file map (and a save is
  signalled); when no record has the path, the store is returned unchanged, file map
  included.
\<close>

theorem DeleteFileMetadata_by_path:
  assumes "range_order ks (Files (data d))"
  shows "((\<exists>k meta. Files (data d) k = Some meta \<and> FilePath meta = path) \<longrightarrow>
            (\<exists>k meta. Files (data d) k = Some meta \<and> FilePath meta = path \<and>
               DeleteFileMetadata ks d path =
                 (None, triggerSave (d\<lparr>data := (data d)\<lparr>Files := (Files (data d))(k := None)\<rparr>\<rparr>)))) \<and>
         ((\<forall>k meta. Files (data d) k = Some meta \<longrightarrow> FilePath meta \<noteq> path) \<longrightarrow>
            DeleteFileMetadata ks d path = (None, d))"
proof (cases "find (\<lambda>(k, meta). FilePath meta = path) (range_map ks (Files (data d)))")
  case None
  from assms have sub: "dom (Files (data d)) \<subseteq> set ks"
    by (simp add: range_order_def)
  have "\<And>k meta. Files (data d) k = Some meta \<Longrightarrow> FilePath meta \<noteq> path"
    using find_range_None [OF None sub] by blast
  with None show ?thesis
    by (auto simp: DeleteFileMetadata_def)
next
  case (Some km)
  obtain k meta where km: "km = (k, meta)" by (cases km)
  from find_range_Some [OF Some [unfolded km]]
  have "Files (data d) k = Some meta" "FilePath meta = path" by simp_all
  with Some km show ?thesis
    by (auto simp: DeleteFileMetadata_def)
qed

theorem DeleteFileMetadata_by_path_witness:
  "range_order [1, 2] (Files (data example_db)) \<and>
   (\<exists>k meta. Files (data example_db) k = Some meta \<and> FilePath meta = ''20240101/a.jpg'' \<and>
      DeleteFileMetadata [1, 2] example_db ''20240101/a.jpg'' =
        (None, triggerSave (example_db\<lparr>data := (data example_db)
           \<lparr>Files := (Files (data example_db))(k := None)\<rparr>\<rparr>))) \<and>
   DeleteFileMetadata [1, 2] example_db ''20240101/zz.jpg'' = (None, example_db)"
proof -
  have p: "\<exists>k meta. Files (data example_db) k = Some meta \<and> FilePath meta = ''20240101/a.jpg''"
    by (rule exI [of _ 1]) (simp add: example_db_def example_meta_def)
  have a: "\<forall>k meta. Files (data example_db) k = Some meta \<longrightarrow> FilePath meta \<noteq> ''20240101/zz.jpg''"
    by (auto simp: example_db_def example_meta_def split: if_splits)
  from DeleteFileMetadata_by_path [OF example_db_order, of "''20240101/a.jpg''"] p
       DeleteFileMetadata_by_path [OF example_db_order, of "''20240101/zz.jpg''"] a
       example_db_order
  show ?thesis by blast
qed

subsection \<open>Listing expired records\<close>

lemma expired_set:
  assumes "range_order ks (Files (data d))"
  shows "set (fst (GetExpiredFiles ks d now)) =
           {meta. \<exists>k. Files (data d) k = Some meta \<and> ExpiresAt meta < now}"
proof -
  from assms have sub: "dom (Files (data d)) \<subseteq> set ks" by (simp add: range_order_def)
  have "set (fst (GetExpiredFiles ks d now)) =
          snd ` {(k, v). k \<in> set ks \<and> Files (data d) k = Some v \<and> ExpiresAt v < now}"
    by (auto simp: GetExpiredFiles_def range_map_set)
  also have "\<dots> = {meta. \<exists>k. Files (data d) k = Some meta \<and> ExpiresAt meta < now}"
    using sub by (force simp: image_iff)
  finally show ?thesis .
qed

lemma expired_length:
  assumes "range_order ks (Files (data d))"
  shows "length (fst (GetExpiredFiles ks d now)) =
           card {k. \<exists>meta. Files (data d) k = Some meta \<and> ExpiresAt meta < now}"
proof -
  from assms have sub: "dom (Files (data d)) \<subseteq> set ks" and dist: "distinct ks"
    by (simp_all add: range_order_def)
  let ?P = "\<lambda>k. Files (data d) k \<noteq> None \<and> ExpiresAt (the (Files (data d) k)) < now"
  have "length (fst (GetExpiredFiles ks d now)) = length (filter ?P ks)"
    by (simp add: GetExpiredFiles_def range_map_def filter_map o_def case_prod_unfold)
  also have "\<dots> = card ({k. ?P k} \<inter> set ks)"
    using dist by (simp add: distinct_length_filter)
  also have "{k. ?P k} \<inter> set ks = {k. \<exists>meta. Files (data d) k = Some meta \<and> ExpiresAt meta < now}"
    using sub by auto
  finally show ?thesis .
qed

lemma one_hour: "handleUpload_expiresAt T 1 = T + 3600000000000"
  by (simp add: handleUpload_expiresAt_def time_Add_def time_Hour_def)

text \<open>
  Claim C4. For an admissible iteration order, \<open>GetExpiredFiles\<close> returns, without
  error and each once, exactly the records whose \<open>ExpiresAt\<close> is strictly before
  the clock reading. A stored record uploaded at \<open>T\<close> with a TTL of one hour is
  not returned 59 minutes after \<open>T\<close> and is returned 61 minutes after \<open>T\<close>.
\<close>

theorem GetExpiredFiles_exact:
  assumes "range_order ks (Files (data d))"
  shows "set (fst (GetExpiredFiles ks d now)) =
           {meta. \<exists>k. Files (data d) k = Some meta \<and> ExpiresAt meta < now} \<and>
         length (fst (GetExpiredFiles ks d now)) =
           card {k. \<exists>meta. Files (data d) k = Some meta \<and> ExpiresAt meta < now} \<and>
         snd (GetExpiredFiles ks d now) = None \<and>
         (\<forall>k meta T. Files (data d) k = Some meta \<and> UploadedAt meta = T \<and>
              ExpiresAt meta = handleUpload_expiresAt T 1 \<longrightarrow>
            meta \<notin> set (fst (GetExpiredFiles ks d (time_Add T (59 * time_Minute)))) \<and>
            meta \<in> set (fst (GetExpiredFiles ks d (time_Add T (61 * time_Minute)))))"
proof -
  have m59: "time_Add T (59 * time_Minute) = T + 3540000000000" for T
    by (simp add: time_Add_def time_Minute_def)
  have m61: "time_Add T (61 * time_Minute) = T + 3660000000000" for T
    by (simp add: time_Add_def time_Minute_def)
  have ex: "meta \<notin> set (fst (GetExpiredFiles ks d (time_Add T (59 * time_Minute)))) \<and>
            meta \<in> set (fst (GetExpiredFiles ks d (time_Add T (61 * time_Minute))))"
    if "Files (data d) k = Some meta" "ExpiresAt meta = handleUpload_expiresAt T 1"
    for k meta T
    using that by (auto simp: expired_set [OF assms] one_hour m59 m61)
  have nil: "snd (GetExpiredFiles ks d now) = None"
    by (simp add: GetExpiredFiles_def)
  from ex have "\<forall>k meta T. Files (data d) k = Some meta \<and> UploadedAt meta = T \<and>
              ExpiresAt meta = handleUpload_expiresAt T 1 \<longrightarrow>
            meta \<notin> set (fst (GetExpiredFiles ks d (time_Add T (59 * time_Minute)))) \<and>
            meta \<in> set (fst (GetExpiredFiles ks d (time_Add T (61 * time_Minute))))"
    by blast
  with expired_set [OF assms, of now] expired_length [OF assms, of now] nil
  show ?thesis by blast
qed

theorem GetExpiredFiles_exact_witness:
  "range_order [1, 2] (Files (data example_db)) \<and>
   Files (data example_db) 1 = Some (example_meta ''20240101/a.jpg'' 100) \<and>
   ExpiresAt (example_meta ''20240101/a.jpg'' 100) = handleUpload_expiresAt (- 3599999999900) 1 \<and>
   example_meta ''20240101/a.jpg'' 100 \<notin>
     set (fst (GetExpiredFiles [1, 2] example_db (time_Add (- 3599999999900) (59 * time_Minute)))) \<and>
   example_meta ''20240101/a.jpg'' 100 \<in>
     set (fst (GetExpiredFiles [1, 2] example_db (time_Add (- 3599999999900) (61 * time_Minute))))"
proof -
  have f: "Files (data example_db) 1 = Some (example_meta ''20240101/a.jpg'' 100)"
    by (simp add: example_db_def)
  have u: "UploadedAt (example_meta ''20240101/a.jpg'' 100) = - 3599999999900"
    by (simp add: example_meta_def)
  have e: "ExpiresAt (example_meta ''20240101/a.jpg'' 100) = handleUpload_expiresAt (- 3599999999900) 1"
    by (simp add: example_meta_def one_hour)
  from GetExpiredFiles_exact [OF example_db_order] f u e example_db_order
  show ?thesis by blast
qed

subsection \<open>Identifiers assigned by inserts\<close>

lemma sint_add_nat:
  fixes x :: int64
  assumes "sint x + int i < 2 ^ 63"
  shows "sint (x + of_nat i) = sint x + int i"
proof -
  have lo: "- (2 ^ 63) \<le> sint x" using sint_ge [of x] by simp
  have "x + of_nat i = word_of_int (sint x + int i)" by simp
  then have "sint (x + of_nat i) = signed_take_bit 63 (sint x + int i)"
    by (simp only: sint_sbintrunc') simp
  also have "\<dots> = sint x + int i"
    using lo assms by (intro signed_take_bit_int_eq_self) simp_all
  finally show ?thesis .
qed

lemma insert_batch_stored:
  "insert_batch d metas = (stored, d') \<Longrightarrow>
     stored = map (\<lambda>i. (metas ! i)\<lparr>ID := NextID (data d) + of_nat i\<rparr>) [0..<length metas] \<and>
     NextID (data d') = NextID (data d) + of_nat (length metas)"
proof (induction metas arbitrary: d stored d')
  case Nil
  then show ?case by simp
next
  case (Cons meta metas)
  obtain meta1 d1 where s: "SaveFileMetadata d meta = (None, meta1, d1)"
    by (simp add: SaveFileMetadata_def Let_def)
  obtain st where r: "insert_batch d1 metas = (st, d')" and st: "stored = meta1 # st"
    using Cons.prems s by (auto split: prod.splits)
  have n1: "NextID (data d1) = NextID (data d) + 1" and m1: "meta1 = meta\<lparr>ID := NextID (data d)\<rparr>"
    using s by (auto simp: SaveFileMetadata_def Let_def triggerSave_def)
  from Cons.IH [OF r] have
    ih: "st = map (\<lambda>i. (metas ! i)\<lparr>ID := NextID (data d1) + of_nat i\<rparr>) [0..<length metas]"
    and ihn: "NextID (data d') = NextID (data d1) + of_nat (length metas)" by simp_all
  have "map (\<lambda>i. ((meta # metas) ! i)\<lparr>ID := NextID (data d) + of_nat i\<rparr>) [0..<length (meta # metas)]
        = meta1 # map (\<lambda>i. (metas ! i)\<lparr>ID := NextID (data d) + of_nat (Suc i)\<rparr>) [0..<length metas]"
    by (simp add: upt_conv_Cons map_Suc_upt [symmetric] m1 del: upt_Suc)
  also have "\<dots> = meta1 # st"
    by (simp add: ih n1 add.assoc add.commute)
  finally show ?case using st ihn n1 by (simp add: add.assoc add.commute)
qed

lemma insert_batch_files:
  "insert_batch d metas = (stored, d') \<Longrightarrow> distinct (map ID stored) \<Longrightarrow>
     (\<forall>m \<in> set stored. Files (data d') (ID m) = Some m) \<and>
     (\<forall>k. k \<notin> ID ` set stored \<longrightarrow> Files (data d') k = Files (data d) k)"
proof (induction metas arbitrary: d stored d')
  case Nil
  then show ?case by simp
next
  case (Cons meta metas)
  obtain meta1 d1 where s: "SaveFileMetadata d meta = (None, meta1, d1)"
    by (simp add: SaveFileMetadata_def Let_def)
  obtain st where r: "insert_batch d1 metas = (st, d')" and st: "stored = meta1 # st"
    using Cons.prems(1) s by (auto split: prod.splits)
  have f1: "Files (data d1) = (Files (data d))(ID meta1 \<mapsto> meta1)"
    using s by (auto simp: SaveFileMetadata_def Let_def triggerSave_def)
  from Cons.prems(2) st have dst: "distinct (map ID st)" and notin: "ID meta1 \<notin> ID ` set st"
    by auto
  from Cons.IH [OF r dst] have
    a: "\<forall>m \<in> set st. Files (data d') (ID m) = Some m"
    and b: "\<forall>k. k \<notin> ID ` set st \<longrightarrow> Files (data d') k = Files (data d1) k" by simp_all
  from b notin f1 have "Files (data d') (ID meta1) = Some meta1" by simp
  moreover from b f1 have "\<forall>k. k \<notin> ID ` set stored \<longrightarrow> Files (data d') k = Files (data d) k"
    by (simp add: st)
  ultimately show ?case using a st by simp
qed

text \<open>
  Claim C3. Take any sequence of \<open>SaveFileMetadata\<close> calls on one store that does
  not run the \<open>int64\<close> counter past its largest value. The call number \<open>i\<close>
  gets the id \<open>NextID + i\<close>: the ids are strictly increasing and pairwise distinct,
  every record is afterwards found under its id, records under other ids are untouched,
  the counter has advanced by the number of calls, and when the stored ids were all below
  the counter no stored id is assigned again.
\<close>

theorem insert_batch_ids:
  assumes "sint (NextID (data d)) + int (length metas) \<le> 2 ^ 63"
  shows "length (fst (insert_batch d metas)) = length metas \<and>
         (\<forall>i < length metas.
            fst (insert_batch d metas) ! i = (metas ! i)\<lparr>ID := NextID (data d) + of_nat i\<rparr> \<and>
            sint (ID (fst (insert_batch d metas) ! i)) = sint (NextID (data d)) + int i) \<and>
         sorted_wrt (\<lambda>a b. sint a < sint b) (map ID (fst (insert_batch d metas))) \<and>
         distinct (map ID (fst (insert_batch d metas))) \<and>
         (\<forall>m \<in> set (fst (insert_batch d metas)).
            GetFileMetadataByID (snd (insert_batch d metas)) (ID m) = (Some m, None)) \<and>
         (\<forall>k. k \<notin> ID ` set (fst (insert_batch d metas)) \<longrightarrow>
            Files (data (snd (insert_batch d metas))) k = Files (data d) k) \<and>
         NextID (data (snd (insert_batch d metas))) = NextID (data d) + of_nat (length metas) \<and>
         ((\<forall>k \<in> dom (Files (data d)). sint k < sint (NextID (data d))) \<longrightarrow>
            dom (Files (data d)) \<inter> ID ` set (fst (insert_batch d metas)) = {})"
proof -
  define stored where "stored = fst (insert_batch d metas)"
  define d' where "d' = snd (insert_batch d metas)"
  have ib: "insert_batch d metas = (stored, d')" by (simp add: stored_def d'_def)
  note cf = insert_batch_stored [OF ib]
  from cf have len: "length stored = length metas" by simp
  have nth: "stored ! i = (metas ! i)\<lparr>ID := NextID (data d) + of_nat i\<rparr>"
    if "i < length metas" for i using cf that by simp
  have sid: "sint (ID (stored ! i)) = sint (NextID (data d)) + int i"
    if "i < length metas" for i
  proof -
    from that assms have "sint (NextID (data d)) + int i < 2 ^ 63" by simp
    then show ?thesis by (simp add: nth [OF that] sint_add_nat)
  qed
  have sorted: "sorted_wrt (\<lambda>a b. sint a < sint b) (map ID stored)"
    unfolding sorted_wrt_iff_nth_less using sid len by simp
  have dist: "distinct (map ID stored)"
    unfolding distinct_conv_nth
  proof (intro allI impI)
    fix i j assume "i < length (map ID stored)" "j < length (map ID stored)" "i \<noteq> j"
    then have "sint (ID (stored ! i)) \<noteq> sint (ID (stored ! j))"
      using sid len by simp
    with \<open>i < length (map ID stored)\<close> \<open>j < length (map ID stored)\<close>
    show "map ID stored ! i \<noteq> map ID stored ! j" by auto
  qed
  note fl = insert_batch_files [OF ib dist]
  have get: "\<forall>m \<in> set stored. GetFileMetadataByID d' (ID m) = (Some m, None)"
    using fl by (simp add: GetFileMetadataByID_def)
  have old: "\<forall>k. k \<notin> ID ` set stored \<longrightarrow> Files (data d') k = Files (data d) k"
    using fl by simp
  have fresh: "dom (Files (data d)) \<inter> ID ` set stored = {}"
    if inv: "\<forall>k \<in> dom (Files (data d)). sint k < sint (NextID (data d))"
  proof -
    have "sint (NextID (data d)) \<le> sint (ID m)" if "m \<in> set stored" for m
    proof -
      from that obtain i where "i < length stored" "m = stored ! i"
        by (auto simp: in_set_conv_nth)
      with sid len show ?thesis by simp
    qed
    note ge = this
    show ?thesis
    proof (rule ccontr)
      assume "dom (Files (data d)) \<inter> ID ` set stored \<noteq> {}"
      then obtain m where m: "m \<in> set stored" "ID m \<in> dom (Files (data d))" by blast
      from inv m(2) have "sint (ID m) < sint (NextID (data d))" by blast
      with ge [OF m(1)] show False by simp
    qed
  qed
  from len nth sid sorted dist get old cf fresh
  show ?thesis unfolding stored_def [symmetric] d'_def [symmetric] by blast
qed

theorem insert_batch_ids_witness:
  "sint (NextID (data example_db)) +
     int (length [example_meta ''20240102/c.jpg'' 300, example_meta ''20240102/d.jpg'' 400]) \<le> 2 ^ 63 \<and>
   sint (ID (fst (insert_batch example_db
      [example_meta ''20240102/c.jpg'' 300, example_meta ''20240102/d.jpg'' 400]) ! 1)) = 4 \<and>
   distinct (map ID (fst (insert_batch example_db
      [example_meta ''20240102/c.jpg'' 300, example_meta ''20240102/d.jpg'' 400]))) \<and>
   dom (Files (data example_db)) \<inter> ID ` set (fst (insert_batch example_db
      [example_meta ''20240102/c.jpg'' 300, example_meta ''20240102/d.jpg'' 400])) = {}"
proof -
  let ?ms = "[example_meta ''20240102/c.jpg'' 300, example_meta ''20240102/d.jpg'' 400]"
  have h: "sint (NextID (data example_db)) + int (length ?ms) \<le> 2 ^ 63"
    by (simp add: example_db_def)
  have inv: "\<forall>k \<in> dom (Files (data example_db)). sint k < sint (NextID (data example_db))"
    by (auto simp: example_db_def split: if_splits)
  have n: "sint (NextID (data example_db)) + int 1 = 4"
    by (simp add: example_db_def)
  note t = insert_batch_ids [OF h]
  note c2 = t [THEN conjunct2, THEN conjunct1]
  note c4 = t [THEN conjunct2, THEN conjunct2, THEN conjunct2, THEN conjunct1]
  note c8 = t [THEN conjunct2, THEN conjunct2, THEN conjunct2, THEN conjunct2,
               THEN conjunct2, THEN conjunct2, THEN conjunct2]
  have l: "1 < length ?ms" by simp
  have a: "sint (ID (fst (insert_batch example_db ?ms) ! 1)) = 4"
    using c2 [rule_format, OF l, THEN conjunct2] by (simp only: n)
  from c8 [rule_format, OF inv [rule_format]]
  have b: "dom (Files (data example_db)) \<inter> ID ` set (fst (insert_batch example_db ?ms)) = {}" .
  from h a c4 b show ?thesis by (intro conjI)
qed

subsection \<open>Opening a store\<close>

lemma dir_example: "filepath_Dir ''data/db.json'' = ''data''"
  by (simp add: filepath_Dir_def filepath_Clean_def)

text \<open>
  Claim C1 says that \<open>Open\<close> fails when the existing file cannot be parsed and never
  overwrites it without a backup. It does neither: \<open>example_fs\<close> holds a snapshot
  that the decoder rejects, \<open>Open\<close> returns a store with the empty state and the
  default configuration, a save is pending, and the next iteration of the save loop
  replaces the snapshot, leaving no other file.
\<close>

theorem Open_corrupt_file_counterexample:
  "fs_files example_fs ''data/db.json'' = Some ''{corrupt'' \<and>
   fst (json_Unmarshal example_codec ''{corrupt'' fresh_data) = Some JsonError \<and>
   fst (Open example_codec example_fs ''data/db.json'') =
     Inr (initDefaultConfig \<lparr>filePath = ''data/db.json'', data = fresh_data, autoSave = False\<rparr>) \<and>
   fs_files (snd (autoSaveLoop_signal example_codec
       (initDefaultConfig \<lparr>filePath = ''data/db.json'', data = fresh_data, autoSave = False\<rparr>)
       example_fs)) = [''data/db.json'' \<mapsto> ''{snapshot}'']"
  by (auto simp: example_fs_def example_codec_def Open_def dir_example os_MkdirAll_def
       os_Stat_def os_ReadFile_def fresh_data_def autoSaveLoop_signal_def initDefaultConfig_def
       triggerSave_def save_def os_WriteFile_def os_Rename_def)

text \<open>
  Claim C1, as the code has it. \<open>Open\<close> fails, with the error of the directory
  creation and the file system untouched, exactly when the directory of the path cannot
  be created. Otherwise it succeeds and the store it returns is fixed by what was
  loaded: the initial empty state (no files, \<open>NextID\<close> 1, no configuration) when
  the file is missing or cannot be read, and whatever the decoder left in that state
  when the file was read, whether or not the decoder reported an error. When the loaded
  configuration is empty, the fourteen default entries are installed and a save is
  signalled; otherwise the loaded data is kept as it is and no save is signalled.
\<close>

theorem Open_fails_only_on_mkdir:
  "(filepath_Dir dbPath \<in> fs_no_mkdir fs \<longrightarrow> Open c fs dbPath = (Inl MkdirError, fs)) \<and>
   (filepath_Dir dbPath \<notin> fs_no_mkdir fs \<longrightarrow>
      (let empty_state = \<lparr>Files = Map.empty, NextID = 1, Config = Map.empty\<rparr>;
           loaded = (case fs_files fs dbPath of
                       None \<Rightarrow> empty_state
                     | Some bytes \<Rightarrow>
                         (if dbPath \<in> fs_no_read fs then empty_state
                          else snd (json_Unmarshal c bytes empty_state)))
       in Open c fs dbPath =
            (Inr \<lparr>filePath = dbPath,
                  data = (if Config loaded = Map.empty
                          then loaded\<lparr>Config :=
               [''server.host'' \<mapsto> ''0.0.0.0'',
                ''server.port'' \<mapsto> ''8080'',
                ''storage.images_dir'' \<mapsto> ''./Images'',
                ''storage.max_file_size'' \<mapsto> ''104857600'',
                ''storage.cleanup_interval'' \<mapsto> ''60'',
                ''storage.default_ttl'' \<mapsto> ''1'',
                ''storage.max_ttl'' \<mapsto> ''8760'',
                ''auth.api_key'' \<mapsto> ''change-me-api-key'',
                ''auth.admin_username'' \<mapsto> ''276793422'',
                ''auth.admin_password'' \<mapsto> ''490003219'',
                ''auth.list_password'' \<mapsto> ''490003219'',
                ''security.ip_whitelist'' \<mapsto> [],
                ''security.rate_limit_per_minute'' \<mapsto> ''60'',
                ''security.session_timeout'' \<mapsto> ''300'']\<rparr>
                          else loaded),
                  autoSave = (Config loaded = Map.empty)\<rparr>,
             fs)))"
  by (auto simp: Open_def os_MkdirAll_def os_Stat_def os_ReadFile_def Let_def fresh_data_def
           initDefaultConfig_def default_config_def triggerSave_def split: option.splits)

theorem Open_fails_only_on_mkdir_witness:
  "filepath_Dir ''data/db.json'' \<in> fs_no_mkdir readonly_fs \<and>
   Open example_codec readonly_fs ''data/db.json'' = (Inl MkdirError, readonly_fs) \<and>
   filepath_Dir ''data/db.json'' \<notin> fs_no_mkdir unreadable_fs \<and>
   Open example_codec unreadable_fs ''data/db.json'' =
     (Inr \<lparr>filePath = ''data/db.json'',
           data = \<lparr>Files = Map.empty, NextID = 1, Config = default_config\<rparr>,
           autoSave = True\<rparr>, unreadable_fs) \<and>
   filepath_Dir ''data/db.json'' \<notin> fs_no_mkdir example_fs \<and>
   json_Unmarshal example_codec ''{corrupt'' \<lparr>Files = Map.empty, NextID = 1, Config = Map.empty\<rparr> =
     (Some JsonError, \<lparr>Files = Map.empty, NextID = 1, Config = Map.empty\<rparr>) \<and>
   Open example_codec example_fs ''data/db.json'' =
     (Inr \<lparr>filePath = ''data/db.json'',
           data = \<lparr>Files = Map.empty, NextID = 1, Config = default_config\<rparr>,
           autoSave = True\<rparr>, example_fs)"
proof -
  have a: "filepath_Dir ''data/db.json'' \<in> fs_no_mkdir readonly_fs"
    by (simp add: dir_example readonly_fs_def)
  have b: "filepath_Dir ''data/db.json'' \<notin> fs_no_mkdir unreadable_fs"
    by (simp add: dir_example unreadable_fs_def)
  have c: "filepath_Dir ''data/db.json'' \<notin> fs_no_mkdir example_fs"
    by (simp add: dir_example example_fs_def)
  have u: "json_Unmarshal example_codec ''{corrupt''
             \<lparr>Files = Map.empty, NextID = 1, Config = Map.empty\<rparr> =
           (Some JsonError, \<lparr>Files = Map.empty, NextID = 1, Config = Map.empty\<rparr>)"
    by (simp add: example_codec_def)
  from Open_fails_only_on_mkdir [of "''data/db.json''" readonly_fs example_codec] a
  have 1: "Open example_codec readonly_fs ''data/db.json'' = (Inl MkdirError, readonly_fs)"
    by blast
  from Open_fails_only_on_mkdir [of "''data/db.json''" unreadable_fs example_codec] b
  have 2: "Open example_codec unreadable_fs ''data/db.json'' =
     (Inr \<lparr>filePath = ''data/db.json'',
           data = \<lparr>Files = Map.empty, NextID = 1, Config = default_config\<rparr>,
           autoSave = True\<rparr>, unreadable_fs)"
    by (simp add: unreadable_fs_def default_config_def)
  from Open_fails_only_on_mkdir [of "''data/db.json''" example_fs example_codec] c u
  have 3: "Open example_codec example_fs ''data/db.json'' =
     (Inr \<lparr>filePath = ''data/db.json'',
           data = \<lparr>Files = Map.empty, NextID = 1, Config = default_config\<rparr>,
           autoSave = True\<rparr>, example_fs)"
    by (simp add: example_fs_def default_config_def)
  from a 1 b 2 c u 3 show ?thesis by (intro conjI)
qed

subsection \<open>Closing and reopening\<close>

text \<open>
  What \<open>Open\<close> decodes after a successful \<open>Close\<close> is what \<open>Close\<close> wrote:
  \<open>save\<close> writes the encoded state to the temporary file and renames it onto the
  path, and \<open>Open\<close> on that path decodes these bytes into the initial empty state.
  Whether the decoded state equals the state that was encoded is then a property of the
  codec alone.
\<close>

lemma save_ok:
  assumes "fst (save c d fs) = None"
  shows "\<exists>bytes. json_MarshalIndent c (data d) = Inr bytes \<and>
           snd (save c d fs) =
             fs\<lparr>fs_files := ((fs_files fs)(filePath d @ ''.tmp'' := None))(filePath d \<mapsto> bytes)\<rparr>"
  using assms
  by (auto simp: save_def os_WriteFile_def os_Rename_def Let_def
           split: sum.splits if_splits prod.splits option.splits)

lemma Open_decodes_what_Close_wrote:
  assumes "fst (Close c d fs) = None"
    and "filepath_Dir (filePath d) \<notin> fs_no_mkdir fs"
    and "filePath d \<notin> fs_no_read fs"
  shows "\<exists>bytes. json_MarshalIndent c (data d) = Inr bytes \<and>
           fs_files (snd (Close c d fs)) (filePath d) = Some bytes \<and>
           Open c (snd (Close c d fs)) (filePath d) =
             (Inr (let loaded = \<lparr>filePath = filePath d,
                                   data = snd (json_Unmarshal c bytes fresh_data),
                                   autoSave = False\<rparr>
                   in if Config (data loaded) = Map.empty then initDefaultConfig loaded
                      else loaded),
              snd (Close c d fs))"
proof -
  from save_ok [OF assms(1) [unfolded Close_def]] obtain bytes where
    m: "json_MarshalIndent c (data d) = Inr bytes" and
    fs': "snd (Close c d fs) =
      fs\<lparr>fs_files := ((fs_files fs)(filePath d @ ''.tmp'' := None))(filePath d \<mapsto> bytes)\<rparr>"
    by (auto simp: Close_def)
  have "Open c (snd (Close c d fs)) (filePath d) =
             (Inr (let loaded = \<lparr>filePath = filePath d,
                                   data = snd (json_Unmarshal c bytes fresh_data),
                                   autoSave = False\<rparr>
                   in if Config (data loaded) = Map.empty then initDefaultConfig loaded
                      else loaded),
              snd (Close c d fs))"
    unfolding fs' using assms(2,3)
    by (simp add: Open_def os_MkdirAll_def os_Stat_def os_ReadFile_def Let_def)
  with m fs' show ?thesis by simp
qed

section \<open>Properties of the sweeper\<close>

lemma DeleteFileMetadata_nil: "fst (DeleteFileMetadata ks d p) = None"
  by (simp add: DeleteFileMetadata_def split: option.splits prod.splits)

lemma DeleteFileMetadata_drop:
  assumes "range_order ks (Files (data d))" and "unique_paths (Files (data d))"
  shows "Files (data (snd (DeleteFileMetadata ks d p))) = drop_paths {p} (Files (data d))"
proof (cases "find (\<lambda>(k, meta). FilePath meta = p) (range_map ks (Files (data d)))")
  case None
  from assms(1) have sub: "dom (Files (data d)) \<subseteq> set ks"
    by (simp add: range_order_def)
  have "\<And>k meta. Files (data d) k = Some meta \<Longrightarrow> FilePath meta \<noteq> p"
    using find_range_None [OF None sub] by blast
  then have "drop_paths {p} (Files (data d)) = Files (data d)"
    by (auto simp: drop_paths_def fun_eq_iff split: option.splits)
  with None show ?thesis by (simp add: DeleteFileMetadata_def)
next
  case (Some km)
  obtain k meta where km: "km = (k, meta)" by (cases km)
  from find_range_Some [OF Some [unfolded km]]
  have k: "Files (data d) k = Some meta" "FilePath meta = p" by simp_all
  have "drop_paths {p} (Files (data d)) = (Files (data d))(k := None)"
  proof
    fix j
    show "drop_paths {p} (Files (data d)) j = ((Files (data d))(k := None)) j"
    proof (cases "Files (data d) j")
      case None
      then show ?thesis by (simp add: drop_paths_def)
    next
      case (Some a)
      with assms(2) k have "FilePath a = p \<longleftrightarrow> j = k"
        unfolding unique_paths_def by (metis option.inject)
      with Some k show ?thesis by (simp add: drop_paths_def)
    qed
  qed
  with Some km show ?thesis
    by (simp add: DeleteFileMetadata_def triggerSave_def)
qed

lemma drop_paths_order: "range_order ks m \<Longrightarrow> range_order ks (drop_paths P m)"
  by (auto simp: range_order_def drop_paths_def split: option.splits if_splits)

lemma drop_paths_unique: "unique_paths m \<Longrightarrow> unique_paths (drop_paths P m)"
  unfolding unique_paths_def drop_paths_def
  by (auto split: option.splits if_splits)

lemma drop_paths_empty: "drop_paths {} m = m"
  by (auto simp: drop_paths_def fun_eq_iff split: option.splits)

lemma drop_paths_twice: "drop_paths P (drop_paths Q m) = drop_paths (Q \<union> P) m"
  by (auto simp: drop_paths_def fun_eq_iff split: option.splits)

lemma cleanup_file_db:
  "sw_db (cleanup_file ops cfg ks file st) =
     snd (DeleteFileMetadata ks (sw_db st) (FilePath file))"
  using DeleteFileMetadata_nil [of ks "sw_db st" "FilePath file"]
  by (cases "DeleteFileMetadata ks (sw_db st) (FilePath file)")
     (auto simp: cleanup_file_def Let_def split: prod.splits option.splits)

lemma cleanup_file_log:
  "filter is_LogDeleted (sw_log (cleanup_file ops cfg ks file st)) =
     filter is_LogDeleted (sw_log st) @
       [LogDeleted (FilePath file) (OriginalName file) (FileSize file)]"
  using DeleteFileMetadata_nil [of ks "sw_db st" "FilePath file"]
  by (cases "DeleteFileMetadata ks (sw_db st) (FilePath file)")
     (auto simp: cleanup_file_def Let_def split: prod.splits option.splits)

lemma cleanup_loop_db:
  assumes "unique_paths (Files (data (sw_db st)))"
    and "\<forall>j. range_order (orders j) (Files (data (sw_db st)))"
  shows "Files (data (sw_db (cleanup_loop ops cfg orders i files st))) =
           drop_paths (FilePath ` set files) (Files (data (sw_db st)))"
  using assms
proof (induction files arbitrary: i st)
  case Nil
  show ?case by (simp add: drop_paths_empty)
next
  case (Cons f fs)
  let ?st1 = "cleanup_file ops cfg (orders i) f st"
  from Cons.prems have o: "range_order (orders i) (Files (data (sw_db st)))" by simp
  have f1: "Files (data (sw_db ?st1)) = drop_paths {FilePath f} (Files (data (sw_db st)))"
    by (simp add: cleanup_file_db DeleteFileMetadata_drop [OF o Cons.prems(1)])
  have u1: "unique_paths (Files (data (sw_db ?st1)))"
    unfolding f1 by (rule drop_paths_unique [OF Cons.prems(1)])
  have o1: "\<forall>j. range_order (orders j) (Files (data (sw_db ?st1)))"
    unfolding f1 using Cons.prems(2) by (simp add: drop_paths_order)
  from Cons.IH [OF u1 o1, of "Suc i"] show ?case
    by (simp add: f1 drop_paths_twice)
qed

lemma cleanup_loop_log:
  "filter is_LogDeleted (sw_log (cleanup_loop ops cfg orders i files st)) =
     filter is_LogDeleted (sw_log st) @
       map (\<lambda>f. LogDeleted (FilePath f) (OriginalName f) (FileSize f)) files"
  by (induction files arbitrary: i st) (simp_all add: cleanup_file_log)

lemma cleanup_loop_db_indep:
  "sw_db st = sw_db st' \<Longrightarrow>
     sw_db (cleanup_loop ops cfg orders i files st) =
     sw_db (cleanup_loop ops' cfg' orders i files st')"
proof (induction files arbitrary: i st st')
  case Nil
  then show ?case by simp
next
  case (Cons f fs)
  have "sw_db (cleanup_file ops cfg (orders i) f st) =
        sw_db (cleanup_file ops' cfg' (orders i) f st')"
    by (simp add: cleanup_file_db Cons.prems)
  from Cons.IH [OF this] show ?case by simp
qed

lemma runCleanup_db_indep:
  "sw_db (runCleanup ops cfg ks0 orders now d w) =
   sw_db (runCleanup ops' cfg' ks0 orders now d w')"
proof -
  have "sw_db (cleanup_loop ops cfg orders 0 files
           \<lparr>sw_db = d, sw_world = w, sw_deletedCount = 0, sw_freedSpace = 0, sw_log = [LogStarting]\<rparr>) =
        sw_db (cleanup_loop ops' cfg' orders 0 files
           \<lparr>sw_db = d, sw_world = w', sw_deletedCount = 0, sw_freedSpace = 0, sw_log = [LogStarting]\<rparr>)"
    for files by (rule cleanup_loop_db_indep) simp
  then show ?thesis
    by (simp add: runCleanup_def GetExpiredFiles_def Let_def)
qed

lemma runCleanup_files:
  assumes "unique_paths (Files (data d))"
    and "range_order ks0 (Files (data d))"
    and "\<forall>i. range_order (orders i) (Files (data d))"
  shows "Files (data (sw_db (runCleanup ops cfg ks0 orders now d w))) =
           drop_expired now (Files (data d))"
proof -
  let ?m = "Files (data d)"
  let ?ex = "fst (GetExpiredFiles ks0 d now)"
  have ex: "set ?ex = {meta. \<exists>k. ?m k = Some meta \<and> ExpiresAt meta < now}"
    by (rule expired_set [OF assms(2)])
  have dp: "drop_paths (FilePath ` set ?ex) ?m = drop_expired now ?m"
  proof
    fix k
    show "drop_paths (FilePath ` set ?ex) ?m k = drop_expired now ?m k"
    proof (cases "?m k")
      case None
      then show ?thesis by (simp add: drop_paths_def drop_expired_def)
    next
      case (Some a)
      have "FilePath a \<in> FilePath ` set ?ex \<longleftrightarrow> ExpiresAt a < now"
      proof
        assume "FilePath a \<in> FilePath ` set ?ex"
        then obtain b k' where b: "?m k' = Some b" "ExpiresAt b < now" "FilePath a = FilePath b"
          unfolding ex by auto
        with assms(1) Some have "k = k'" unfolding unique_paths_def by blast
        with b Some show "ExpiresAt a < now" by simp
      next
        assume "ExpiresAt a < now"
        with Some have "a \<in> set ?ex" unfolding ex by blast
        then show "FilePath a \<in> FilePath ` set ?ex" by blast
      qed
      with Some show ?thesis by (simp add: drop_paths_def drop_expired_def)
    qed
  qed
  show ?thesis
  proof (cases "?ex = []")
    case True
    then have "set ?ex = {}" by simp
    with dp have "drop_expired now ?m = ?m"
      by (simp add: drop_paths_empty)
    with True show ?thesis
      by (simp add: runCleanup_def GetExpiredFiles_def Let_def)
  next
    case False
    let ?st = "\<lparr>sw_db = d, sw_world = w, sw_deletedCount = 0, sw_freedSpace = 0,
                 sw_log = [LogStarting]\<rparr>"
    have "Files (data (sw_db (cleanup_loop ops cfg orders 0 ?ex ?st))) =
            drop_paths (FilePath ` set ?ex) ?m"
      using cleanup_loop_db [of ?st orders ops cfg 0 ?ex] assms(1,3) by simp
    with False dp show ?thesis
      by (simp add: runCleanup_def GetExpiredFiles_def Let_def)
  qed
qed

lemma runCleanup_log:
  "filter is_LogDeleted (sw_log (runCleanup ops cfg ks0 orders now d w)) =
     map (\<lambda>f. LogDeleted (FilePath f) (OriginalName f) (FileSize f))
       (fst (GetExpiredFiles ks0 d now))"
  by (simp add: runCleanup_def GetExpiredFiles_def Let_def cleanup_loop_log)

lemma example_db_unique: "unique_paths (Files (data example_db))"
  unfolding unique_paths_def
  by (auto simp: example_db_def example_meta_def split: if_splits)

lemma example_db_order': "range_order [2, 1] (Files (data example_db))"
  by (auto simp: range_order_def example_db_def split: if_splits)

subsection \<open>One sweep\<close>

text \<open>
  Claim C2. Let the paths of the stored records be pairwise distinct (the invariant of
  the data model) and the iteration orders admissible. Whatever \<open>os.Remove\<close> and
  \<open>os.ReadDir\<close> return during a sweep (success, file missing, or any other error),
  the store afterwards holds exactly the records that had not expired: the metadata of
  every expired record is removed. Every expired record is processed, in the order of
  the list, each with its line in the log, so no failure ends the loop early; and the
  store after the sweep is the same for any other behaviour of the operating system.
\<close>

theorem runCleanup_removes_metadata:
  assumes "unique_paths (Files (data d))"
    and "range_order ks0 (Files (data d))"
    and "\<forall>i. range_order (orders i) (Files (data d))"
  shows "Files (data (sw_db (runCleanup ops cfg ks0 orders now d w))) =
           drop_expired now (Files (data d)) \<and>
         filter is_LogDeleted (sw_log (runCleanup ops cfg ks0 orders now d w)) =
           map (\<lambda>f. LogDeleted (FilePath f) (OriginalName f) (FileSize f))
             (fst (GetExpiredFiles ks0 d now)) \<and>
         sw_db (runCleanup ops cfg ks0 orders now d w) =
           sw_db (runCleanup ops' cfg ks0 orders now d w')"
proof (intro conjI)
  show "Files (data (sw_db (runCleanup ops cfg ks0 orders now d w))) =
          drop_expired now (Files (data d))"
    by (rule runCleanup_files [OF assms])
  show "filter is_LogDeleted (sw_log (runCleanup ops cfg ks0 orders now d w)) =
          map (\<lambda>f. LogDeleted (FilePath f) (OriginalName f) (FileSize f))
            (fst (GetExpiredFiles ks0 d now))"
    by (rule runCleanup_log)
  show "sw_db (runCleanup ops cfg ks0 orders now d w) =
          sw_db (runCleanup ops' cfg ks0 orders now d w')"
    by (rule runCleanup_db_indep)
qed

theorem runCleanup_removes_metadata_witness:
  "unique_paths (Files (data example_db)) \<and>
   range_order [1, 2] (Files (data example_db)) \<and>
   (\<forall>i. range_order ((\<lambda>i. [2, 1]) i) (Files (data example_db))) \<and>
   fst (Remove example_ops ''Images/20240101/a.jpg'' []) = Some ErrOther \<and>
   fst (Remove example_ops ''Images/20240101/b.jpg'' []) = Some ErrNotExist \<and>
   Files (data (sw_db (runCleanup example_ops example_cfg [1, 2] (\<lambda>i. [2, 1]) 250 example_db []))) =
     Map.empty"
proof -
  have o: "\<forall>i. range_order ((\<lambda>i. [2, 1]) i) (Files (data example_db))"
    by (simp add: example_db_order')
  have e: "drop_expired 250 (Files (data example_db)) = Map.empty"
    by (auto simp: drop_expired_def example_db_def example_meta_def fun_eq_iff)
  have r: "fst (Remove example_ops ''Images/20240101/a.jpg'' []) = Some ErrOther"
    "fst (Remove example_ops ''Images/20240101/b.jpg'' []) = Some ErrNotExist"
    by (simp_all add: example_ops_def)
  from runCleanup_removes_metadata [OF example_db_unique example_db_order o,
      of example_ops example_cfg 250 "[]"]
  have "Files (data (sw_db (runCleanup example_ops example_cfg [1, 2] (\<lambda>i. [2, 1]) 250 example_db []))) =
     Map.empty"
    unfolding e by (rule conjunct1)
  with example_db_unique example_db_order o r show ?thesis by (intro conjI)
qed

subsection \<open>Two sweeps in a row\<close>

text \<open>
  Claim C8. Let the paths of the stored records be pairwise distinct and the iteration
  orders of the first sweep admissible, and let no record expire between the clock
  readings of the two sweeps (as when the second reading equals the first). After the
  first sweep no record is expired, and the second sweep, whatever the operating system
  does, changes neither the store nor the outside world, counts no deletion and logs
  only that there was nothing to clean up.
\<close>

theorem runCleanup_twice:
  assumes "unique_paths (Files (data d))"
    and "range_order ks0 (Files (data d))"
    and "\<forall>i. range_order (orders i) (Files (data d))"
    and "\<forall>k a. Files (data d) k = Some a \<and> ExpiresAt a < now2 \<longrightarrow> ExpiresAt a < now"
  shows "fst (GetExpiredFiles ks2 (sw_db (runCleanup ops cfg ks0 orders now d w)) now2) = [] \<and>
         runCleanup ops2 cfg2 ks2 orders2 now2
             (sw_db (runCleanup ops cfg ks0 orders now d w))
             (sw_world (runCleanup ops cfg ks0 orders now d w)) =
           \<lparr>sw_db = sw_db (runCleanup ops cfg ks0 orders now d w),
            sw_world = sw_world (runCleanup ops cfg ks0 orders now d w),
            sw_deletedCount = 0, sw_freedSpace = 0,
            sw_log = [LogStarting, LogNoExpired]\<rparr>"
proof -
  let ?r1 = "runCleanup ops cfg ks0 orders now d w"
  have f: "Files (data (sw_db ?r1)) = drop_expired now (Files (data d))"
    by (rule runCleanup_files [OF assms(1-3)])
  have none: "\<not> ExpiresAt a < now2" if "Files (data (sw_db ?r1)) k = Some a" for k a
  proof -
    from that have "Files (data d) k = Some a" "\<not> ExpiresAt a < now"
      unfolding f by (auto simp: drop_expired_def split: option.splits if_splits)
    with assms(4) show ?thesis by blast
  qed
  have "filter (\<lambda>(k, meta). ExpiresAt meta < now2) (range_map ks2 (Files (data (sw_db ?r1)))) = []"
    using none by (auto simp: filter_empty_conv range_map_set)
  then have e: "fst (GetExpiredFiles ks2 (sw_db ?r1) now2) = []"
    by (simp add: GetExpiredFiles_def)
  then have "GetExpiredFiles ks2 (sw_db ?r1) now2 = ([], None)"
    by (simp add: GetExpiredFiles_def)
  then have "runCleanup ops2 cfg2 ks2 orders2 now2 (sw_db ?r1) (sw_world ?r1) =
           \<lparr>sw_db = sw_db ?r1, sw_world = sw_world ?r1,
            sw_deletedCount = 0, sw_freedSpace = 0,
            sw_log = [LogStarting, LogNoExpired]\<rparr>"
    by (simp add: runCleanup_def)
  with e show ?thesis by (intro conjI)
qed

theorem runCleanup_twice_witness:
  "unique_paths (Files (data example_db)) \<and>
   range_order [1, 2] (Files (data example_db)) \<and>
   (\<forall>i. range_order ((\<lambda>i. [2, 1]) i) (Files (data example_db))) \<and>
   fst (GetExpiredFiles [1, 2] example_db 150) \<noteq> [] \<and>
   fst (GetExpiredFiles [2, 1]
     (sw_db (runCleanup example_ops example_cfg [1, 2] (\<lambda>i. [2, 1]) 150 example_db
        [''Images/20240101/b.jpg''])) 150) = []"
proof -
  have o: "\<forall>i. range_order ((\<lambda>i. [2, 1]) i) (Files (data example_db))"
    by (simp add: example_db_order')
  have t: "\<forall>k a. Files (data example_db) k = Some a \<and> ExpiresAt a < 150 \<longrightarrow> ExpiresAt a < 150"
    by simp
  have n: "fst (GetExpiredFiles [1, 2] example_db 150) \<noteq> []"
    by (simp add: GetExpiredFiles_def range_map_def example_db_def example_meta_def)
  from runCleanup_twice [OF example_db_unique example_db_order o t,
      of "[2, 1]" example_ops example_cfg "[''Images/20240101/b.jpg'']"]
  have "fst (GetExpiredFiles [2, 1]
     (sw_db (runCleanup example_ops example_cfg [1, 2] (\<lambda>i. [2, 1]) 150 example_db
        [''Images/20240101/b.jpg''])) 150) = []"
    by (rule conjunct1)
  with example_db_unique example_db_order o n show ?thesis by (intro conjI)
qed

section \<open>Properties of the naming engine\<close>



lemma hex_digit_ok: "is_lower_hex (hex_digit n)"
proof -
  have "n mod 16 < length ''0123456789abcdef''" by simp
  then have "''0123456789abcdef'' ! (n mod 16) \<in> set ''0123456789abcdef''" by (rule nth_mem)
  then show ?thesis by (simp only: is_lower_hex_def hex_digit_def)
qed


lemma hex_digits_ok: "list_all is_lower_hex (hex_digits n)"
  by (induction n rule: hex_digits.induct) (subst hex_digits.simps, simp add: hex_digit_ok)










































section \<open>Sweeps in flight\<close>






end
